theory Spec2Isabelle
  imports Complex_Main "HOL-Library.Char_ord" "HOL-Library.Sublist"
begin

section \<open>Python values, exceptions and the process environment\<close>

text \<open>
  The program \<^verbatim>\<open>summarize-beacon.py\<close> is a Python 3 script (its shebang is
  \<^verbatim>\<open>python3\<close> and it imports \<^verbatim>\<open>urllib.request\<close>). A Python \<^verbatim>\<open>str\<close> is
  modelled as a \<^typ>\<open>string\<close>; every string the program counts characters of is cut out
  of \<^verbatim>\<open>str(bytes)\<close>, which is ASCII. Python's \<^verbatim>\<open>int\<close> is \<^typ>\<open>int\<close>.

  Exceptions are values. \<open>SystemExit n\<close> is what \<^verbatim>\<open>sys.exit(n)\<close> raises; the script
  catches it nowhere, so it ends the process with status \<open>n\<close>. Any other exception that
  reaches the top ends the process with a traceback and status 1.
  \<^verbatim>\<open>ConnectionError\<close> is a subclass of \<^verbatim>\<open>OSError\<close>, whose alias is \<^verbatim>\<open>IOError\<close>.
  \<^verbatim>\<open>KeyboardInterrupt\<close> and \<^verbatim>\<open>MemoryError\<close> (asynchronous, resource bound) are
  not modelled.
\<close>

datatype py_exc =
    SystemExit int
  | IOError
  | ConnectionError
  | UnboundLocalError
  | AttributeError
  | TypeError
  | ValueError
  | ZeroDivisionError
  | KeyError
  | HTTPException

fun is_IOError :: "py_exc \<Rightarrow> bool" where
  "is_IOError IOError = True"
| "is_IOError ConnectionError = True"
| "is_IOError _ = False"

fun is_ConnectionError :: "py_exc \<Rightarrow> bool" where
  "is_ConnectionError ConnectionError = True"
| "is_ConnectionError _ = False"

text \<open>The exit status of the process, from how \<^verbatim>\<open>main()\<close> ended.\<close>

fun exit_status :: "py_exc + 'a \<Rightarrow> int" where
  "exit_status (Inr _) = 0"
| "exit_status (Inl (SystemExit n)) = n"
| "exit_status (Inl _) = 1"

text \<open>
  What \<^verbatim>\<open>urlopen(url).read()\<close> does: it returns the body's bytes, or raises an
  \<^verbatim>\<open>OSError\<close> (\<^verbatim>\<open>URLError\<close>, a timeout), a \<^verbatim>\<open>ConnectionError\<close>, or an
  \<^verbatim>\<open>http.client.HTTPException\<close> (which is not an \<^verbatim>\<open>OSError\<close>).
  What \<^verbatim>\<open>Chronyk(phrase)\<close> does (a library outside the repository, taken as a
  parameter): it raises, or builds an object whose \<^verbatim>\<open>timestamp()\<close> is a finite float
  (a real number here) and whose \<^verbatim>\<open>ctime()\<close> is a string.
\<close>

datatype net_exc = NetIOError | NetConnectionError | NetHTTPException

fun exc_of_net :: "net_exc \<Rightarrow> py_exc" where
  "exc_of_net NetIOError = IOError"
| "exc_of_net NetConnectionError = ConnectionError"
| "exc_of_net NetHTTPException = HTTPException"

datatype net_result = Body string | NetRaises net_exc

datatype chronyk_result = ChronykObj real string | ChronykRaises py_exc

text \<open>
  Standard output is a list of events: \<open>Print s\<close> is \<^verbatim>\<open>print(s)\<close>;
  \<open>ProgressBar i n\<close> is the line \<^verbatim>\<open>progress_bar\<close> writes for iteration \<open>i\<close> of
  \<open>n\<close> records (its bar and percentage are computed in floating point and are left
  uninterpreted).
\<close>

datatype out_event = Print string | ProgressBar nat nat

text \<open>
  The world the process runs in. \<open>net w k url\<close> is the outcome of the request
  number \<open>k\<close> (counted from 0) when it asks for \<open>url\<close>; \<open>chronyk w k phrase\<close> is
  the outcome of the construction number \<open>k\<close> of a \<^verbatim>\<open>Chronyk\<close> object. \<open>reqs\<close> logs
  the URLs requested, \<open>out\<close> is standard output, \<open>slept\<close> the seconds spent in
  \<^verbatim>\<open>sleep\<close>.
\<close>

record world =
  net :: "nat \<Rightarrow> string \<Rightarrow> net_result"
  chronyk :: "nat \<Rightarrow> string \<Rightarrow> chronyk_result"
  reqs :: "string list"
  chronyk_calls :: nat
  out :: "out_event list"
  slept :: nat

type_synonym 'a prog = "world \<Rightarrow> (py_exc + 'a) \<times> world"

definition return :: "'a \<Rightarrow> 'a prog" where
  "return x w = (Inr x, w)"

definition raise :: "py_exc \<Rightarrow> 'a prog" where
  "raise e w = (Inl e, w)"

definition and_then :: "'a prog \<Rightarrow> ('a \<Rightarrow> 'b prog) \<Rightarrow> 'b prog" where
  "and_then m f w = (case m w of (Inl e, w1) \<Rightarrow> (Inl e, w1) | (Inr x, w1) \<Rightarrow> f x w1)"

definition stdout_write :: "out_event \<Rightarrow> unit prog" where
  "stdout_write ev w = (Inr (), w\<lparr>out := out w @ [ev]\<rparr>)"

definition py_print :: "string \<Rightarrow> unit prog" where
  "py_print s = stdout_write (Print s)"

definition sys_exit :: "int \<Rightarrow> 'a prog" where
  "sys_exit n = raise (SystemExit n)"

definition sleep :: "nat \<Rightarrow> unit prog" where
  "sleep n w = (Inr (), w\<lparr>slept := slept w + n\<rparr>)"

definition urlopen_read :: "string \<Rightarrow> world \<Rightarrow> net_result \<times> world" where
  "urlopen_read url w = (net w (length (reqs w)) url, w\<lparr>reqs := reqs w @ [url]\<rparr>)"

definition Chronyk :: "string \<Rightarrow> world \<Rightarrow> chronyk_result \<times> world" where
  "Chronyk phrase w =
     (chronyk w (chronyk_calls w) phrase, w\<lparr>chronyk_calls := Suc (chronyk_calls w)\<rparr>)"

subsection \<open>\<^verbatim>\<open>str\<close> of an integer\<close>

definition digit_char :: "nat \<Rightarrow> char" where
  "digit_char d = ''0123456789'' ! d"

function str_digits :: "int \<Rightarrow> string" where
  "str_digits n =
     (if n < 10 then [digit_char (nat n)]
      else str_digits (n div 10) @ [digit_char (nat (n mod 10))])"
  by pat_completeness auto
termination
  by (relation "measure nat") auto

declare str_digits.simps [simp del]

definition str_int :: "int \<Rightarrow> string" where
  "str_int i = (if i < 0 then CHR ''-'' # str_digits (- i) else str_digits i)"

section \<open>The module's constants\<close>

definition frequency :: int where
  "frequency = 3600"

definition min_timestamp :: int where
  "min_timestamp = 1378395540"

definition main_url :: string where
  "main_url = ''https://beacon.nist.gov/rest/record/''"

definition wrong_parameters_message :: string where
  "wrong_parameters_message = ''\<newline>Wrong input parameters, please see help and try again.''"

definition host_unreachable :: string where
  "host_unreachable = ''Host '' @ main_url @ '' is unreachable.''"

definition host_unreachable_at_all :: string where
  "host_unreachable_at_all = ''\<newline>Host '' @ main_url @ '' probably is down, exiting.''"

definition value_not_found :: string where
  "value_not_found = ''\<newline>Output value wasn't found in xml from '' @ main_url"

definition bad_time_received :: string where
  "bad_time_received = ''\<newline>Bad related time received, please see help and try again.''"

definition from_less_than_to :: string where
  "from_less_than_to = ''\<newline>Relative time in --from should predate relative time in --to''"

definition time_less_than_min :: string where
  "time_less_than_min =
     ''\<newline>Related time in --from or --to shouldn't predate beacon start at 09/05/2013 3:39 pm''"

definition help_message :: string where
  "help_message =
     ''\<newline>usage: summarize-beacon [--help] [--from \"relative time\"] [--to \"relative time\"]\<newline>'' @
     ''\<newline>Program is designed to get output values from\<newline>'' @
     ''NIST Randomness Beacon REST API 'https://beacon.nist.gov/rest'\<newline>'' @
     ''from relative time to relative time,\<newline>'' @
     ''parse it and output every hexadecimal character\<newline>'' @
     ''and number of it's occurrences from summarized beacon's output value.\<newline>'' @
     ''\<newline>Without arguments program will output every hexadecimal character\<newline>'' @
     ''and number of it's occurrences in last Randomness Beacon output value.\<newline>'' @
     ''\<newline>optional arguments:\<newline>'' @
     '' --help  show this help message and exit\<newline>'' @
     '' --from  \"relative time\"\<newline>'' @
     '' --to    \"relative time\"\<newline>'' @
     ''\<newline> If option --from is used, option --to is required after it.\<newline>'' @
     '' \"relative time\" string should look like:\<newline>'' @
     '' \"2 year(s) 3 month(s) 2 day(s) 5 hour(s) 20 minute(s) ago\",\<newline>'' @
     '' where at least one parameter is required\<newline>'' @
     '' (amount of years, months, days, hours or minutes)\<newline>'' @
     '' and \"ago\" in the end of the string.\<newline> ''"

definition result_header :: string where
  "result_header =
     ''\<newline>Result (hexadecimal character,number of occurrences in output value):''"

section \<open>\<^verbatim>\<open>format_output_value\<close>: the frequency report\<close>

text \<open>
  \<^verbatim>\<open>"{0},{1}".format(symbol, counter)\<close>.
\<close>

definition format_line :: "char \<Rightarrow> nat \<Rightarrow> string" where
  "format_line symbol counter = symbol # '','' @ str_int (int counter)"

text \<open>
  The \<^verbatim>\<open>for\<close> loop iterates over the string object that \<^verbatim>\<open>output_value\<close> named
  when the loop started (the sorted string, first argument); the assignments in the body
  rebind the name \<^verbatim>\<open>output_value\<close> to the shrinking string (second argument), which
  \<^verbatim>\<open>count\<close> and \<^verbatim>\<open>replace\<close> read.
\<close>

fun report_loop :: "string \<Rightarrow> string \<Rightarrow> unit prog" where
  "report_loop [] output_value = return ()"
| "report_loop (symbol # rest) output_value =
     (let counter = count_list output_value symbol in
      and_then (if counter > 0 then py_print (format_line symbol counter) else return ())
        (\<lambda>_. report_loop rest (removeAll symbol output_value)))"

definition format_output_value :: "string \<Rightarrow> unit prog" where
  "format_output_value output_value0 =
     (let output_value = sort output_value0 in
      and_then (py_print result_header) (\<lambda>_. report_loop output_value output_value))"

subsection \<open>The single-pass reference\<close>

text \<open>
  The reimplementation the design notes ask for: one pass that builds a mapping from
  character to count (a Python \<^verbatim>\<open>dict\<close>, here an association list with one entry
  per key), then one line per entry, sorted by key.
\<close>

fun bump :: "char \<Rightarrow> (char \<times> nat) list \<Rightarrow> (char \<times> nat) list" where
  "bump c [] = [(c, 1)]"
| "bump c ((k, v) # m) = (if k = c then (k, Suc v) # m else (k, v) # bump c m)"

fun tally :: "string \<Rightarrow> (char \<times> nat) list \<Rightarrow> (char \<times> nat) list" where
  "tally [] m = m"
| "tally (c # cs) m = tally cs (bump c m)"

fun print_all :: "string list \<Rightarrow> unit prog" where
  "print_all [] = return ()"
| "print_all (l # ls) = and_then (py_print l) (\<lambda>_. print_all ls)"

definition reference_report :: "string \<Rightarrow> unit prog" where
  "reference_report s =
     and_then (py_print result_header)
       (\<lambda>_. print_all (map (\<lambda>(k, v). format_line k v) (sort_key fst (tally s []))))"

section \<open>\<^verbatim>\<open>get_xml\<close>: the beacon client\<close>

subsection \<open>\<^verbatim>\<open>str\<close> of a \<^verbatim>\<open>bytes\<close> object\<close>

text \<open>
  \<^verbatim>\<open>str(urlopen(url).read())\<close> is the \<^verbatim>\<open>repr\<close> of the bytes: \<^verbatim>\<open>b'...'\<close>, in double
  quotes when the bytes hold a single quote and no double quote, with the quote and the
  backslash escaped, tab, newline and carriage return written \<^verbatim>\<open>\t\<close>, \<^verbatim>\<open>\n\<close>,
  \<^verbatim>\<open>\r\<close>, and every other byte outside the printable ASCII range written \<^verbatim>\<open>\xNN\<close>.
\<close>

definition hex_digit :: "nat \<Rightarrow> char" where
  "hex_digit d = ''0123456789abcdef'' ! d"

definition repr_byte :: "char \<Rightarrow> char \<Rightarrow> string" where
  "repr_byte quote c =
     (if c = quote \<or> c = CHR 0x5C then [CHR 0x5C, c]
      else if c = CHR 0x09 then [CHR 0x5C, CHR ''t'']
      else if c = CHR 0x0A then [CHR 0x5C, CHR ''n'']
      else if c = CHR 0x0D then [CHR 0x5C, CHR ''r'']
      else if (of_char c :: nat) < 32 \<or> (of_char c :: nat) \<ge> 127
        then [CHR 0x5C, CHR ''x'', hex_digit (of_char c div 16), hex_digit (of_char c mod 16)]
      else [c])"

definition str_bytes :: "string \<Rightarrow> string" where
  "str_bytes b =
     (let quote = (if CHR 0x27 \<in> set b \<and> CHR 0x22 \<notin> set b then CHR 0x22 else CHR 0x27)
      in CHR ''b'' # quote # concat (map (repr_byte quote) b) @ [quote])"

subsection \<open>The retry loop\<close>

text \<open>
  The state of the local name \<^verbatim>\<open>str_error\<close>: not bound, bound to \<^verbatim>\<open>None\<close>, or
  bound to an exception. In Python 3 the target of \<^verbatim>\<open>except E as name\<close> is deleted
  when the except clause ends, so after either handler the name is not bound.
\<close>

datatype binding = Unbound | BoundNone | BoundExc py_exc

text \<open>
  The \<^verbatim>\<open>try\<close> statement of one iteration. It returns the values of \<^verbatim>\<open>xml\<close>
  (\<open>None\<close> is Python's \<^verbatim>\<open>None\<close>) and \<^verbatim>\<open>str_error\<close> after it. An exception
  that is neither an \<^verbatim>\<open>IOError\<close> nor a \<^verbatim>\<open>ConnectionError\<close> leaves the function.
\<close>

definition try_urlopen ::
  "string \<Rightarrow> string option \<Rightarrow> binding \<Rightarrow> (string option \<times> binding) prog" where
  "try_urlopen url xml str_error w =
     (case urlopen_read url w of
        (Body b, w1) \<Rightarrow> return (Some (str_bytes b), BoundNone) w1
      | (NetRaises e, w1) \<Rightarrow>
          if is_IOError (exc_of_net e)
            then and_then (py_print host_unreachable) (\<lambda>_. return (xml, Unbound)) w1
          else if is_ConnectionError (exc_of_net e)
            then and_then (py_print host_unreachable) (\<lambda>_. return (xml, Unbound)) w1
          else raise (exc_of_net e) w1)"

text \<open>
  The loop \<^verbatim>\<open>for x in range(0, 3)\<close>, on the values of \<open>x\<close> still to come.
  \<^verbatim>\<open>if str_error:\<close> reads the name: it raises \<^verbatim>\<open>UnboundLocalError\<close> when the name is
  not bound, takes the retry branch when it is bound to an exception (every exception
  object is true), and the \<^verbatim>\<open>else\<close> branch when it is bound to \<^verbatim>\<open>None\<close>.
\<close>

fun get_xml_loop :: "nat list \<Rightarrow> string \<Rightarrow> string option \<Rightarrow> binding \<Rightarrow> (string option) prog" where
  "get_xml_loop [] url xml str_error =
     and_then (py_print host_unreachable_at_all) (\<lambda>_. sys_exit 1)"
| "get_xml_loop (x # xs) url xml str_error =
     and_then (try_urlopen url xml str_error) (\<lambda>(xml', str_error').
       case str_error' of
         Unbound \<Rightarrow> raise UnboundLocalError
       | BoundExc _ \<Rightarrow>
           and_then (py_print (''Waiting 2 seconds for retry #'' @ str_int (int (x + 1)))) (\<lambda>_.
           and_then (sleep 2) (\<lambda>_.
           and_then (py_print ''Retrying...'') (\<lambda>_.
           get_xml_loop xs url xml' str_error')))
       | BoundNone \<Rightarrow> return xml')"

definition get_xml :: "string \<Rightarrow> (string option) prog" where
  "get_xml url = get_xml_loop [0, 1, 2] url None Unbound"

section \<open>\<^verbatim>\<open>parse_xml\<close>: the record extractor\<close>

definition open_tag :: string where
  "open_tag = ''<outputValue>''"

definition close_tag :: string where
  "close_tag = ''</outputValue>''"

text \<open>
  The regular expression \<^verbatim>\<open><outputValue>(.*?)</outputValue>\<close>. \<open>lazy_group\<close> matches
  \<^verbatim>\<open>(.*?)</outputValue>\<close> where the text starts and returns the group: the lazy star
  takes one more character only when the closing tag does not start here, and the dot
  matches no newline. \<open>re_search\<close> tries every start from the left, as
  \<^verbatim>\<open>re.search\<close> does, and returns group 1 of the first match.
\<close>

fun lazy_group :: "string \<Rightarrow> string option" where
  "lazy_group [] = None"
| "lazy_group (c # cs) =
     (if prefix close_tag (c # cs) then Some []
      else if c = CHR 0x0A then None
      else map_option ((#) c) (lazy_group cs))"

fun re_search :: "string \<Rightarrow> string option" where
  "re_search [] = None"
| "re_search (c # cs) =
     (if prefix open_tag (c # cs) then
        (case lazy_group (drop (length open_tag) (c # cs)) of
           Some g \<Rightarrow> Some g
         | None \<Rightarrow> re_search cs)
      else re_search cs)"

text \<open>
  The body of the \<^verbatim>\<open>try\<close>: \<^verbatim>\<open>re.search(pattern, None)\<close> raises \<^verbatim>\<open>TypeError\<close>;
  when nothing matches, \<^verbatim>\<open>re.search\<close> returns \<^verbatim>\<open>None\<close> and \<^verbatim>\<open>.group(1)\<close> on it
  raises \<^verbatim>\<open>AttributeError\<close>.
\<close>

definition search_group :: "string option \<Rightarrow> py_exc + string" where
  "search_group xml =
     (case xml of
        None \<Rightarrow> Inl TypeError
      | Some text \<Rightarrow> (case re_search text of None \<Rightarrow> Inl AttributeError | Some g \<Rightarrow> Inr g))"

definition parse_xml :: "string option \<Rightarrow> string prog" where
  "parse_xml xml =
     (case search_group xml of
        Inl e \<Rightarrow>
          if e = TypeError then and_then (py_print value_not_found) (\<lambda>_. sys_exit 1)
          else if e = ValueError then and_then (py_print value_not_found) (\<lambda>_. sys_exit 1)
          else raise e
      | Inr output_value \<Rightarrow> return output_value)"

section \<open>\<^verbatim>\<open>validate_timestamps\<close>\<close>

definition validate_timestamps :: "int \<Rightarrow> int \<Rightarrow> bool prog" where
  "validate_timestamps from_timestamp to_timestamp =
     (if from_timestamp > to_timestamp
        then and_then (py_print from_less_than_to) (\<lambda>_. sys_exit 1)
      else if from_timestamp < min_timestamp \<or> to_timestamp < min_timestamp
        then and_then (py_print time_less_than_min) (\<lambda>_. sys_exit 1)
      else return True)"

section \<open>\<^verbatim>\<open>convert_to_timestamp\<close>: the time parser\<close>

text \<open>\<^verbatim>\<open>int(x)\<close> of a finite float truncates towards zero.\<close>

definition py_int_of_float :: "real \<Rightarrow> int" where
  "py_int_of_float x = (if x < 0 then \<lceil>x\<rceil> else \<lfloor>x\<rfloor>)"

definition bad_time :: "'a prog" where
  "bad_time =
     and_then (py_print bad_time_received) (\<lambda>_.
     and_then (py_print help_message) (\<lambda>_. sys_exit 1))"

definition convert_to_timestamp :: "string \<Rightarrow> int prog" where
  "convert_to_timestamp relative_time w =
     (case Chronyk relative_time w of
        (ChronykRaises e, w1) \<Rightarrow>
          if e = TypeError then bad_time w1
          else if e = ValueError then bad_time w1
          else raise e w1
      | (ChronykObj ts _, w1) \<Rightarrow>
          (let timestamp = py_int_of_float ts
           in return (timestamp - timestamp mod 60) w1))"

section \<open>\<^verbatim>\<open>get_summary_record\<close> and \<^verbatim>\<open>progress_bar\<close>: the range aggregator\<close>

text \<open>\<^verbatim>\<open>range(start, stop, step)\<close> for a positive step, the only one the program uses.\<close>

function py_range :: "int \<Rightarrow> int \<Rightarrow> int \<Rightarrow> int list" where
  "py_range start stop step =
     (if 0 < step \<and> start < stop then start # py_range (start + step) stop step else [])"
  by pat_completeness auto
termination
  by (relation "measure (\<lambda>(start, stop, step). nat (stop - start))") auto

declare py_range.simps [simp del]

text \<open>
  \<^verbatim>\<open>one_percent = float(len(data_list)) / 100\<close> is \<open>0.0\<close> exactly when the list is
  empty, and then \<^verbatim>\<open>(iteration + 1) / one_percent\<close> raises \<^verbatim>\<open>ZeroDivisionError\<close>.
\<close>

definition progress_bar :: "nat \<Rightarrow> int list \<Rightarrow> unit prog" where
  "progress_bar iteration data_list =
     (if length data_list = 0 then raise ZeroDivisionError
      else stdout_write (ProgressBar iteration (length data_list)))"

fun summary_loop :: "(nat \<times> int) list \<Rightarrow> int list \<Rightarrow> string \<Rightarrow> string prog" where
  "summary_loop [] timestamps_list output_data = return output_data"
| "summary_loop ((index, timestamp) # rest) timestamps_list output_data =
     (let timestamp_url = main_url @ str_int timestamp in
      and_then (get_xml timestamp_url) (\<lambda>xml_from_timestamp.
      and_then (parse_xml xml_from_timestamp) (\<lambda>record_from_timestamp.
      (let output_data' = output_data @ record_from_timestamp in
       and_then (progress_bar index timestamps_list) (\<lambda>_.
       summary_loop rest timestamps_list output_data')))))"

definition get_summary_record :: "int \<Rightarrow> int \<Rightarrow> string prog" where
  "get_summary_record from_timestamp to_timestamp =
     (let timestamps_list = py_range from_timestamp to_timestamp frequency
      in summary_loop (enumerate 0 timestamps_list) timestamps_list [])"

section \<open>\<^verbatim>\<open>main\<close>: the command line driver\<close>

definition wrong_parameters :: "'a prog" where
  "wrong_parameters =
     and_then (py_print wrong_parameters_message) (\<lambda>_.
     and_then (py_print help_message) (\<lambda>_. sys_exit 2))"

definition dict_get :: "(string \<rightharpoonup> string) \<Rightarrow> string \<Rightarrow> string prog" where
  "dict_get d k = (case d k of None \<Rightarrow> raise KeyError | Some v \<Rightarrow> return v)"

text \<open>\<^verbatim>\<open>Chronyk(phrase).ctime()\<close>.\<close>

definition Chronyk_ctime :: "string \<Rightarrow> string prog" where
  "Chronyk_ctime phrase w =
     (case Chronyk phrase w of
        (ChronykRaises e, w1) \<Rightarrow> raise e w1
      | (ChronykObj _ c, w1) \<Rightarrow> return c w1)"

definition requested_records :: "string \<Rightarrow> string \<Rightarrow> string" where
  "requested_records from_ctime to_ctime =
     ''Requested records:\<newline>From  '' @ from_ctime @ ''\<newline>To    '' @ to_ctime"

definition main :: "string list \<Rightarrow> bool prog" where
  "main args =
     (if length args = 0 then
        and_then (get_xml (main_url @ ''last/'')) (\<lambda>last_xml.
        and_then (parse_xml last_xml) (\<lambda>last_record.
        and_then (format_output_value last_record) (\<lambda>_. return True)))
      else if length args = 1 then
        (if \<not> args ! 0 = ''--help'' then wrong_parameters
         else and_then (py_print help_message) (\<lambda>_. sys_exit 0))
      else if length args = 4 then
        (if \<not> args ! 0 = ''--from'' then wrong_parameters
         else
           (let options = [args ! 0 \<mapsto> args ! 1] in
            if \<not> args ! 2 = ''--to'' then wrong_parameters
            else
              (let options = options(args ! 2 \<mapsto> args ! 3) in
               and_then (dict_get options ''--from'') (\<lambda>from_value.
               and_then (dict_get options ''--to'') (\<lambda>to_value.
               and_then (convert_to_timestamp from_value) (\<lambda>from_timestamp.
               and_then (convert_to_timestamp to_value) (\<lambda>to_timestamp.
               and_then (validate_timestamps from_timestamp to_timestamp) (\<lambda>_.
               and_then (Chronyk_ctime from_value) (\<lambda>from_ctime.
               and_then (Chronyk_ctime to_value) (\<lambda>to_ctime.
               and_then (py_print (requested_records from_ctime to_ctime)) (\<lambda>_.
               and_then (get_summary_record from_timestamp to_timestamp) (\<lambda>summary_record.
               and_then (format_output_value summary_record) (\<lambda>_. return True)))))))))))))
      else wrong_parameters)"

section \<open>Auxiliary functions for the statements\<close>

text \<open>Two concrete worlds: one without network, one where the beacon answers.\<close>

definition offline_world :: world where
  "offline_world =
     \<lparr>net = (\<lambda>k url. NetRaises NetIOError),
      chronyk = (\<lambda>k phrase. ChronykRaises ValueError),
      reqs = [], chronyk_calls = 0, out = [], slept = 0\<rparr>"

definition beacon_world :: world where
  "beacon_world =
     \<lparr>net = (\<lambda>k url. Body ''<record><outputValue>DEADBEEF</outputValue></record>''),
      chronyk = (\<lambda>k phrase.
        if phrase = ''2 hours ago'' then ChronykObj 1700000123.5 ''Tue Nov 14 20:15:23 2023''
        else ChronykRaises ValueError),
      reqs = [], chronyk_calls = 0, out = [], slept = 0\<rparr>"

text \<open>The URL \<^verbatim>\<open>get_summary_record\<close> asks for a timestamp: \<^verbatim>\<open>_main_url+str(timestamp)\<close>.\<close>

abbreviation timestamp_url :: "int \<Rightarrow> string" where
  "timestamp_url timestamp \<equiv> main_url @ str_int timestamp"

text \<open>
  \<open>answers w k ts vs\<close>: in the world \<open>w\<close> the requests number \<open>k\<close>, \<open>k + 1\<close>, ...
  for the timestamps \<open>ts\<close> are answered, one after the other, with bodies in which the
  extractor finds the output values \<open>vs\<close>.
\<close>

fun answers :: "world \<Rightarrow> nat \<Rightarrow> int list \<Rightarrow> string list \<Rightarrow> bool" where
  "answers w k [] [] = True"
| "answers w k (t # ts) (v # vs) =
     ((case net w k (timestamp_url t) of
         Body b \<Rightarrow> re_search (str_bytes b) = Some v
       | NetRaises e \<Rightarrow> False)
      \<and> answers w (Suc k) ts vs)"
| "answers w k _ _ = False"

text \<open>The characters for which the loop prints a line, in the order of printing.\<close>

fun emitted :: "string \<Rightarrow> string \<Rightarrow> string" where
  "emitted [] cur = []"
| "emitted (x # xs) cur = (if x \<in> set cur then [x] else []) @ emitted xs (removeAll x cur)"

section \<open>Properties of the frequency report\<close>

lemma print_all_out:
  "print_all ls w = (Inr (), w\<lparr>out := out w @ map Print ls\<rparr>)"
  by (induction ls arbitrary: w) (simp_all add: return_def and_then_def py_print_def stdout_write_def)

lemma count_list_removeAll_other:
  "c \<noteq> x \<Longrightarrow> count_list (removeAll x cur) c = count_list cur c"
  by (induction cur) auto

lemma set_emitted: "set (emitted xs cur) = set xs \<inter> set cur"
  by (induction xs arbitrary: cur) auto

lemma distinct_emitted: "distinct (emitted xs cur)"
  by (induction xs arbitrary: cur) (auto simp: set_emitted)

lemma sorted_emitted: "sorted xs \<Longrightarrow> sorted (emitted xs cur)"
  by (induction xs arbitrary: cur) (auto simp: set_emitted)

lemma report_loop_out:
  "report_loop xs cur w =
     (Inr (), w\<lparr>out := out w @ map (\<lambda>c. Print (format_line c (count_list cur c))) (emitted xs cur)\<rparr>)"
proof (induction xs arbitrary: cur w)
  case Nil
  show ?case by (simp add: return_def)
next
  case (Cons x xs)
  have same: "map (\<lambda>c. Print (format_line c (count_list (removeAll x cur) c)))
                (emitted xs (removeAll x cur))
            = map (\<lambda>c. Print (format_line c (count_list cur c))) (emitted xs (removeAll x cur))"
    by (rule map_cong) (auto simp: set_emitted count_list_removeAll_other)
  show ?case
    by (simp add: Cons.IH same and_then_def py_print_def stdout_write_def return_def Let_def
        count_list_0_iff)
qed

lemma count_list_insort:
  "count_list (insort x xs) c = count_list (x # xs) c"
  by (induction xs) auto

lemma count_list_sort: "count_list (sort xs) c = count_list xs c"
  by (induction xs) (simp_all add: count_list_insort)

lemma emitted_sort: "emitted (sort s) (sort s) = sorted_list_of_set (set s)"
proof -
  have "sorted_list_of_set (set (emitted (sort s) (sort s))) = emitted (sort s) (sort s)"
    by (rule sorted_list_of_set.idem_if_sorted_distinct)
      (simp_all add: sorted_emitted distinct_emitted)
  then show ?thesis by (simp add: set_emitted)
qed

lemma format_output_value_out:
  "format_output_value s w =
     (Inr (), w\<lparr>out := out w @ Print result_header #
        map (\<lambda>c. Print (format_line c (count_list s c))) (sorted_list_of_set (set s))\<rparr>)"
  by (simp add: format_output_value_def Let_def and_then_def py_print_def stdout_write_def report_loop_out
      emitted_sort count_list_sort)

subsection \<open>The reference computes the same table\<close>

lemma keys_bump: "fst ` set (bump c m) = insert c (fst ` set m)"
  by (induction c m rule: bump.induct) auto

lemma distinct_bump: "distinct (map fst m) \<Longrightarrow> distinct (map fst (bump c m))"
proof (induction c m rule: bump.induct)
  case (1 c)
  show ?case by simp
next
  case (2 c k v m)
  have "k \<noteq> c \<Longrightarrow> k \<notin> fst ` set (bump c m)"
    using "2.prems" by (simp add: keys_bump)
  with 2 show ?case by auto
qed

lemma map_of_bump:
  "map_of (bump c m) k =
     (if k = c then Some (Suc (case map_of m c of None \<Rightarrow> 0 | Some v \<Rightarrow> v)) else map_of m k)"
  by (induction c m rule: bump.induct) auto

lemma keys_tally: "fst ` set (tally s m) = set s \<union> fst ` set m"
  by (induction s arbitrary: m) (auto simp: keys_bump)

lemma distinct_tally: "distinct (map fst m) \<Longrightarrow> distinct (map fst (tally s m))"
  by (induction s arbitrary: m) (auto simp: distinct_bump)

lemma map_of_tally_other:
  "k \<notin> set s \<Longrightarrow> map_of (tally s m) k = map_of m k"
  by (induction s arbitrary: m) (auto simp: map_of_bump)

lemma map_of_tally:
  "k \<in> set s \<Longrightarrow>
   map_of (tally s m) k = Some (count_list s k + (case map_of m k of None \<Rightarrow> 0 | Some v \<Rightarrow> v))"
proof (induction s arbitrary: m)
  case Nil
  then show ?case by simp
next
  case (Cons c cs)
  show ?case
  proof (cases "k \<in> set cs")
    case True
    then show ?thesis by (simp add: Cons.IH map_of_bump)
  next
    case False
    then have "k = c" using Cons.prems by simp
    with False show ?thesis
      by (simp add: map_of_tally_other map_of_bump)
  qed
qed

lemma sort_key_tally:
  "sort_key fst (tally s []) = map (\<lambda>c. (c, count_list s c)) (sorted_list_of_set (set s))"
proof -
  let ?m = "tally s []"
  let ?l = "sort_key fst ?m"
  have dm: "distinct (map fst ?m)" by (simp add: distinct_tally)
  have dl: "distinct (map fst ?l)"
    using dm by (simp add: distinct_map)
  have sl: "sorted (map fst ?l)" by (rule sorted_sort_key)
  have "set (map fst ?l) = set s" by (simp add: keys_tally)
  then have keys: "map fst ?l = sorted_list_of_set (set s)"
    using sorted_list_of_set.idem_if_sorted_distinct [OF sl dl] by simp
  have val: "\<And>p. p \<in> set ?l \<Longrightarrow> (fst p, count_list s (fst p)) = p"
  proof -
    fix p assume "p \<in> set ?l"
    then have pm: "p \<in> set ?m" by simp
    then have "fst p \<in> set s" using keys_tally [of s "[]"] by force
    then have "map_of ?m (fst p) = Some (count_list s (fst p))"
      by (simp add: map_of_tally)
    moreover have "map_of ?m (fst p) = Some (snd p)"
      using dm pm by (simp add: map_of_eq_Some_iff)
    ultimately show "(fst p, count_list s (fst p)) = p" by (cases p) simp
  qed
  have "map (\<lambda>c. (c, count_list s c)) (map fst ?l) = map (\<lambda>p. (fst p, count_list s (fst p))) ?l"
    by simp
  also have "\<dots> = ?l" using val by (rule map_idI)
  finally show ?thesis using keys by simp
qed

lemma reference_report_out:
  "reference_report s w =
     (Inr (), w\<lparr>out := out w @ Print result_header #
        map (\<lambda>c. Print (format_line c (count_list s c))) (sorted_list_of_set (set s))\<rparr>)"
  by (simp add: reference_report_def and_then_def py_print_def stdout_write_def print_all_out
      sort_key_tally comp_def)

lemma sum_counts: "sum_list (map (count_list s) (sorted_list_of_set (set s))) = length s"
proof -
  have "sum_list (map (count_list s) (sorted_list_of_set (set s))) = sum (count_list s) (set s)"
    by (simp add: sum_list_distinct_conv_sum_set)
  then show ?thesis by (simp add: sum_count_set)
qed

section \<open>Properties of the client, the extractor and the aggregator\<close>

lemma get_xml_cases:
  "get_xml url w =
     (case net w (length (reqs w)) url of
        Body b \<Rightarrow> (Inr (Some (str_bytes b)), w\<lparr>reqs := reqs w @ [url]\<rparr>)
      | NetRaises e \<Rightarrow>
          (if e = NetHTTPException then (Inl HTTPException, w\<lparr>reqs := reqs w @ [url]\<rparr>)
           else (Inl UnboundLocalError,
                 w\<lparr>reqs := reqs w @ [url], out := out w @ [Print host_unreachable]\<rparr>)))"
proof (cases "net w (length (reqs w)) url")
  case (Body b)
  then show ?thesis
    by (simp add: get_xml_def try_urlopen_def urlopen_read_def and_then_def return_def)
next
  case (NetRaises e)
  then show ?thesis
    by (cases e) (simp_all add: get_xml_def try_urlopen_def urlopen_read_def and_then_def
        return_def raise_def py_print_def stdout_write_def)
qed

lemma parse_xml_found: "re_search text = Some v \<Longrightarrow> parse_xml (Some text) w = (Inr v, w)"
  by (simp add: parse_xml_def search_group_def return_def)

lemma parse_xml_absent:
  "re_search text = None \<Longrightarrow> parse_xml (Some text) w = (Inl AttributeError, w)"
  by (simp add: parse_xml_def search_group_def raise_def)

lemma parse_xml_Some:
  "parse_xml (Some text) w =
     (case re_search text of None \<Rightarrow> (Inl AttributeError, w) | Some v \<Rightarrow> (Inr v, w))"
  by (simp add: parse_xml_found parse_xml_absent split: option.splits)

lemma answers_net: "net w' = net w \<Longrightarrow> answers w' k ts vs = answers w k ts vs"
  by (induction w k ts vs rule: answers.induct) simp_all

lemma summary_loop_Cons:
  "summary_loop (enumerate k (t # ts)) L acc w =
     (case net w (length (reqs w)) (timestamp_url t) of
        NetRaises e \<Rightarrow>
          (if e = NetHTTPException
             then (Inl HTTPException, w\<lparr>reqs := reqs w @ [timestamp_url t]\<rparr>)
           else (Inl UnboundLocalError,
                 w\<lparr>reqs := reqs w @ [timestamp_url t],
                   out := out w @ [Print host_unreachable]\<rparr>))
      | Body b \<Rightarrow>
          (case re_search (str_bytes b) of
             None \<Rightarrow> (Inl AttributeError, w\<lparr>reqs := reqs w @ [timestamp_url t]\<rparr>)
           | Some v \<Rightarrow>
               if L = [] then (Inl ZeroDivisionError, w\<lparr>reqs := reqs w @ [timestamp_url t]\<rparr>)
               else summary_loop (enumerate (Suc k) ts) L (acc @ v)
                      (w\<lparr>reqs := reqs w @ [timestamp_url t],
                         out := out w @ [ProgressBar k (length L)]\<rparr>)))"
  by (simp add: and_then_def get_xml_cases parse_xml_Some progress_bar_def stdout_write_def
      raise_def Let_def split: net_result.splits option.splits)

lemma enumerate_Cons: "enumerate k (t # ts) = (k, t) # enumerate (Suc k) ts"
  by simp

lemma summary_loop_success:
  "answers w (length (reqs w)) ts vs \<Longrightarrow> (ts \<noteq> [] \<longrightarrow> L \<noteq> []) \<Longrightarrow>
   summary_loop (enumerate k ts) L acc w =
     (Inr (acc @ concat vs),
      w\<lparr>reqs := reqs w @ map timestamp_url ts,
        out := out w @ map (\<lambda>i. ProgressBar i (length L)) [k..<k + length ts]\<rparr>)"
proof (induction ts arbitrary: k acc w vs)
  case Nil
  then show ?case by (cases vs) (simp_all add: return_def)
next
  case (Cons t ts)
  then obtain v vs' where vs: "vs = v # vs'" by (cases vs) auto
  from Cons.prems vs obtain b where
    b: "net w (length (reqs w)) (timestamp_url t) = Body b"
    and v: "re_search (str_bytes b) = Some v"
    and rest: "answers w (Suc (length (reqs w))) ts vs'"
    by (auto split: net_result.splits)
  let ?w1 = "w\<lparr>reqs := reqs w @ [timestamp_url t],
                 out := out w @ [ProgressBar k (length L)]\<rparr>"
  have L: "L \<noteq> []" using Cons.prems by simp
  have a1: "answers ?w1 (length (reqs ?w1)) ts vs'"
    using rest answers_net [of ?w1 w "Suc (length (reqs w))" ts vs'] by simp
  have ih: "summary_loop (enumerate (Suc k) ts) L (acc @ v) ?w1 =
     (Inr ((acc @ v) @ concat vs'),
      ?w1\<lparr>reqs := reqs ?w1 @ map timestamp_url ts,
        out := out ?w1 @ map (\<lambda>i. ProgressBar i (length L)) [Suc k..<Suc k + length ts]\<rparr>)"
    by (rule Cons.IH [OF a1]) (simp add: L)
  have upt: "[k..<k + length (t # ts)] = k # [Suc k..<Suc k + length ts]"
    by (subst upt_conv_Cons) simp_all
  have "summary_loop (enumerate k (t # ts)) L acc w
      = summary_loop (enumerate (Suc k) ts) L (acc @ v) ?w1"
    by (simp only: summary_loop_Cons b v L net_result.case option.case if_False)
  also note ih
  finally show ?case
    unfolding upt vs by simp
qed

lemma summary_loop_prefix:
  "\<exists>j\<le>length ts.
     reqs (snd (summary_loop (enumerate k ts) L acc w)) = reqs w @ map timestamp_url (take j ts)
     \<and> (\<forall>s. fst (summary_loop (enumerate k ts) L acc w) = Inr s \<longrightarrow> j = length ts)"
proof (induction ts arbitrary: k acc w)
  case Nil
  show ?case by (simp add: return_def)
next
  case (Cons t ts)
  show ?case
  proof (cases "\<exists>b v. net w (length (reqs w)) (timestamp_url t) = Body b
                  \<and> re_search (str_bytes b) = Some v \<and> L \<noteq> []")
    case True
    then obtain b v where b: "net w (length (reqs w)) (timestamp_url t) = Body b"
      and v: "re_search (str_bytes b) = Some v" and L: "L \<noteq> []" by blast
    let ?w2 = "w\<lparr>reqs := reqs w @ [timestamp_url t],
                 out := out w @ [ProgressBar k (length L)]\<rparr>"
    have step: "summary_loop (enumerate k (t # ts)) L acc w
        = summary_loop (enumerate (Suc k) ts) L (acc @ v) ?w2"
      by (simp only: summary_loop_Cons b v L net_result.case option.case if_False)
    from Cons.IH [of "Suc k" "acc @ v" ?w2] obtain j where
      j: "j \<le> length ts"
      "reqs (snd (summary_loop (enumerate (Suc k) ts) L (acc @ v) ?w2))
         = reqs ?w2 @ map timestamp_url (take j ts)"
      "\<forall>s. fst (summary_loop (enumerate (Suc k) ts) L (acc @ v) ?w2) = Inr s \<longrightarrow> j = length ts"
      by blast
    show ?thesis
      unfolding step by (rule exI [of _ "Suc j"]) (use j in simp)
  next
    case False
    have "reqs (snd (summary_loop (enumerate k (t # ts)) L acc w)) = reqs w @ [timestamp_url t]
        \<and> (\<forall>s. fst (summary_loop (enumerate k (t # ts)) L acc w) \<noteq> Inr s)"
      unfolding summary_loop_Cons using False
      by (auto split: net_result.splits option.splits)
    then show ?thesis
      by (intro exI [of _ "Suc 0"]) simp
  qed
qed

lemma summary_loop_progress:
  "ts \<noteq> [] \<longrightarrow> L \<noteq> [] \<Longrightarrow>
   fst (summary_loop (enumerate k ts) L acc w) \<noteq> Inl ZeroDivisionError
   \<and> (\<exists>evs. out (snd (summary_loop (enumerate k ts) L acc w)) = out w @ evs
        \<and> (\<forall>i n. ProgressBar i n \<in> set evs \<longrightarrow> n = length L \<and> 0 < n))"
proof (induction ts arbitrary: k acc w)
  case Nil
  show ?case by (simp add: return_def)
next
  case (Cons t ts)
  then have L: "L \<noteq> []" by simp
  show ?case
  proof (cases "\<exists>b v. net w (length (reqs w)) (timestamp_url t) = Body b
                  \<and> re_search (str_bytes b) = Some v")
    case True
    then obtain b v where b: "net w (length (reqs w)) (timestamp_url t) = Body b"
      and v: "re_search (str_bytes b) = Some v" by blast
    let ?w2 = "w\<lparr>reqs := reqs w @ [timestamp_url t],
                 out := out w @ [ProgressBar k (length L)]\<rparr>"
    have step: "summary_loop (enumerate k (t # ts)) L acc w
        = summary_loop (enumerate (Suc k) ts) L (acc @ v) ?w2"
      by (simp only: summary_loop_Cons b v L net_result.case option.case if_False)
    from Cons.IH [of "Suc k" "acc @ v" ?w2] L obtain evs where
      e: "fst (summary_loop (enumerate (Suc k) ts) L (acc @ v) ?w2) \<noteq> Inl ZeroDivisionError"
      "out (snd (summary_loop (enumerate (Suc k) ts) L (acc @ v) ?w2)) = out ?w2 @ evs"
      "\<forall>i n. ProgressBar i n \<in> set evs \<longrightarrow> n = length L \<and> 0 < n"
      by blast
    have "out (snd (summary_loop (enumerate (Suc k) ts) L (acc @ v) ?w2))
            = out w @ (ProgressBar k (length L) # evs)
          \<and> (\<forall>i n. ProgressBar i n \<in> set (ProgressBar k (length L) # evs)
                \<longrightarrow> n = length L \<and> 0 < n)"
      using e(2,3) L by simp
    then show ?thesis
      unfolding step using e(1) by blast
  next
    case False
    have "fst (summary_loop (enumerate k (t # ts)) L acc w) \<noteq> Inl ZeroDivisionError
        \<and> (out (snd (summary_loop (enumerate k (t # ts)) L acc w)) = out w @ []
          \<or> out (snd (summary_loop (enumerate k (t # ts)) L acc w))
              = out w @ [Print host_unreachable])"
      unfolding summary_loop_Cons using False L
      by (auto split: net_result.splits option.splits)
    moreover have "\<forall>i n. ProgressBar i n \<in> set [] \<longrightarrow> n = length L \<and> 0 < n"
      "\<forall>i n. ProgressBar i n \<in> set [Print host_unreachable] \<longrightarrow> n = length L \<and> 0 < n"
      by simp_all
    ultimately show ?thesis by blast
  qed
qed

lemma py_range_frequency:
  "py_range f t frequency = map (\<lambda>k. f + 3600 * int k) [0..<nat ((t - f + 3599) div 3600)]"
proof (induction "nat (t - f)" arbitrary: f rule: less_induct)
  case less
  show ?case
  proof (cases "f < t")
    case False
    then have "nat ((t - f + 3599) div 3600) = 0" by simp
    moreover have "py_range f t frequency = []"
      using False by (subst py_range.simps) simp
    ultimately show ?thesis by simp
  next
    case True
    have "t - f + 3599 = (t - (f + 3600) + 3599) + 3600" by simp
    then have d1: "(t - f + 3599) div 3600 = (t - (f + 3600) + 3599) div 3600 + 1"
      by (simp only: div_add_self2)
    have d0: "0 \<le> (t - (f + 3600) + 3599) div 3600"
      using True by (simp add: pos_imp_zdiv_nonneg_iff)
    have n: "nat ((t - f + 3599) div 3600) = Suc (nat ((t - (f + 3600) + 3599) div 3600))"
      unfolding d1 using d0 by (simp add: Suc_nat_eq_nat_zadd1)
    have "nat (t - (f + 3600)) < nat (t - f)" using True by simp
    then have ih: "py_range (f + 3600) t frequency
        = map (\<lambda>k. f + 3600 + 3600 * int k) [0..<nat ((t - (f + 3600) + 3599) div 3600)]"
      by (rule less)
    have "py_range f t frequency = f # py_range (f + 3600) t frequency"
      using True by (subst py_range.simps) (simp add: frequency_def)
    then show ?thesis
      unfolding n ih map_upt_Suc by simp
  qed
qed

lemma length_py_range: "length (py_range f t frequency) = nat ((t - f + 3599) div 3600)"
  by (simp add: py_range_frequency)

lemma py_range_hourly:
  "py_range f t frequency = map (\<lambda>k. f + 3600 * int k) [0..<length (py_range f t frequency)]"
  by (simp add: py_range_frequency)

lemma py_range_bound:
  "(f + 3600 * int k < t) = (k < length (py_range f t frequency))"
proof -
  define q where "q = (t - f + 3599) div 3600"
  define r where "r = (t - f + 3599) mod 3600"
  have x: "t - f + 3599 = 3600 * q + r"
    unfolding q_def r_def by simp
  have r: "0 \<le> r" "r < 3600"
    unfolding r_def by simp_all
  have "(f + 3600 * int k < t) = (int k < q)"
    using x r by linarith
  then show ?thesis
    by (simp only: length_py_range zless_nat_eq_int_zless q_def)
qed

lemma py_range_two_hours: "py_range f (f + 7200) frequency = [f, f + 3600]"
proof -
  have "nat ((f + 7200 - f + 3599) div 3600) = Suc (Suc 0)" by simp
  then show ?thesis
    unfolding py_range_frequency by (simp only: upt_Suc upt_0) simp
qed

lemma get_summary_record_success:
  "answers w (length (reqs w)) (py_range f t frequency) vs \<Longrightarrow>
   get_summary_record f t w =
     (Inr (concat vs),
      w\<lparr>reqs := reqs w @ map timestamp_url (py_range f t frequency),
        out := out w @ map (\<lambda>i. ProgressBar i (length (py_range f t frequency)))
                 [0..<length (py_range f t frequency)]\<rparr>)"
  using summary_loop_success [of w "py_range f t frequency" vs "py_range f t frequency" 0 "[]"]
  by (simp add: get_summary_record_def Let_def)

lemma str_int_samples:
  "str_int 1700000040 = ''1700000040''" "str_int 1700003640 = ''1700003640''"
  by (simp_all add: str_int_def str_digits.simps digit_char_def)

lemma beacon_body_value:
  "re_search (str_bytes ''<record><outputValue>DEADBEEF</outputValue></record>'') = Some ''DEADBEEF''"
  by (simp add: str_bytes_def Let_def repr_byte_def open_tag_def close_tag_def)

lemma str_int_small: "str_int 2 = ''2''" "str_int 1 = ''1''"
  by (simp_all add: str_int_def str_digits.simps digit_char_def)

lemma get_xml_never_retries:
  "slept (snd (get_xml url w)) = slept w
   \<and> reqs (snd (get_xml url w)) = reqs w @ [url]
   \<and> Print host_unreachable_at_all \<notin> set (drop (length (out w)) (out (snd (get_xml url w))))"
  by (simp add: get_xml_cases host_unreachable_def host_unreachable_at_all_def
      split: net_result.splits)

section \<open>Properties of the validation, the time parser and the driver\<close>

lemma messages_differ: "from_less_than_to \<noteq> time_less_than_min"
  by (simp add: from_less_than_to_def time_less_than_min_def)

lemma validate_timestamps_cases:
  "validate_timestamps f t w =
     (if t < f then (Inl (SystemExit 1), w\<lparr>out := out w @ [Print from_less_than_to]\<rparr>)
      else if f < min_timestamp \<or> t < min_timestamp
        then (Inl (SystemExit 1), w\<lparr>out := out w @ [Print time_less_than_min]\<rparr>)
      else (Inr True, w))"
  by (simp add: validate_timestamps_def and_then_def py_print_def stdout_write_def sys_exit_def
      raise_def return_def)

section \<open>The claims\<close>

text \<open>
  C1. For every string \<open>s\<close>, \<^verbatim>\<open>format_output_value\<close> prints the header and then
  exactly one line \<^verbatim>\<open><char>,<count>\<close> per distinct character of \<open>s\<close>, in ascending
  character order, each count being the number of occurrences of the character in
  \<open>s\<close>; the printed counts add up to the length of \<open>s\<close>; and the run is equal, in
  result and in output, to the single-pass reference that builds a character-to-count
  mapping and prints it sorted by key.
\<close>

theorem format_output_value_report:
  "format_output_value s w =
     (Inr (), w\<lparr>out := out w @ Print result_header #
        map (\<lambda>c. Print (format_line c (count_list s c))) (sorted_list_of_set (set s))\<rparr>)
   \<and> sum_list (map (count_list s) (sorted_list_of_set (set s))) = length s
   \<and> format_output_value s w = reference_report s w"
  by (simp add: format_output_value_out reference_report_out sum_counts)

theorem format_output_value_report_witness:
  "format_output_value ''aabbc'' offline_world =
     (Inr (), offline_world\<lparr>out := out offline_world @
        [Print result_header, Print ''a,2'', Print ''b,2'', Print ''c,1'']\<rparr>)
   \<and> format_output_value ''aabbc'' offline_world = reference_report ''aabbc'' offline_world"
proof -
  note t = format_output_value_report [of "''aabbc''" offline_world]
  have s: "sorted_list_of_set (set ''aabbc'') = ''abc''"
    by (simp add: sorted_list_of_set_sort_remdups)
  have "format_output_value ''aabbc'' offline_world =
     (Inr (), offline_world\<lparr>out := out offline_world @
        [Print result_header, Print ''a,2'', Print ''b,2'', Print ''c,1'']\<rparr>)"
    using conjunct1 [OF t] by (simp add: s format_line_def str_int_small)
  then show ?thesis using t by blast
qed

text \<open>
  C2. The timestamps \<^verbatim>\<open>get_summary_record\<close> iterates over are exactly
  \<open>from_ts\<close>, \<open>from_ts + 3600\<close>, \<open>from_ts + 7200\<close>, ... strictly below \<open>to_ts\<close>, in
  that order; for \<open>to_ts = from_ts + 7200\<close> they are \<open>from_ts\<close> and
  \<open>from_ts + 3600\<close>. In every run the URLs fetched are the URLs of a prefix of that
  list, in order, and of the whole list when the function returns. When every fetch is
  answered with a body that holds an output value, the function returns the
  concatenation of the values in fetch order, having issued exactly one fetch per
  timestamp and one progress line per fetch.
\<close>

theorem get_summary_record_probes:
  "py_range f t frequency = map (\<lambda>k. f + 3600 * int k) [0..<length (py_range f t frequency)]
   \<and> (\<forall>k. (f + 3600 * int k < t) = (k < length (py_range f t frequency)))
   \<and> py_range f (f + 7200) frequency = [f, f + 3600]
   \<and> (\<exists>j\<le>length (py_range f t frequency).
         reqs (snd (get_summary_record f t w))
           = reqs w @ map timestamp_url (take j (py_range f t frequency))
         \<and> (\<forall>s. fst (get_summary_record f t w) = Inr s \<longrightarrow> j = length (py_range f t frequency)))
   \<and> (answers w (length (reqs w)) (py_range f t frequency) vs \<longrightarrow>
        get_summary_record f t w =
          (Inr (concat vs),
           w\<lparr>reqs := reqs w @ map timestamp_url (py_range f t frequency),
             out := out w @ map (\<lambda>i. ProgressBar i (length (py_range f t frequency)))
                      [0..<length (py_range f t frequency)]\<rparr>))"
proof -
  have a: "py_range f t frequency
      = map (\<lambda>k. f + 3600 * int k) [0..<length (py_range f t frequency)]"
    by (rule py_range_hourly)
  have b: "\<forall>k. (f + 3600 * int k < t) = (k < length (py_range f t frequency))"
    by (simp only: py_range_bound) simp
  have c: "py_range f (f + 7200) frequency = [f, f + 3600]"
    by (rule py_range_two_hours)
  have d: "\<exists>j\<le>length (py_range f t frequency).
         reqs (snd (get_summary_record f t w))
           = reqs w @ map timestamp_url (take j (py_range f t frequency))
         \<and> (\<forall>s. fst (get_summary_record f t w) = Inr s \<longrightarrow> j = length (py_range f t frequency))"
    unfolding get_summary_record_def Let_def by (rule summary_loop_prefix)
  have e: "answers w (length (reqs w)) (py_range f t frequency) vs \<longrightarrow>
        get_summary_record f t w =
          (Inr (concat vs),
           w\<lparr>reqs := reqs w @ map timestamp_url (py_range f t frequency),
             out := out w @ map (\<lambda>i. ProgressBar i (length (py_range f t frequency)))
                      [0..<length (py_range f t frequency)]\<rparr>)"
    by (rule impI) (rule get_summary_record_success)
  from a b c d e show ?thesis by (intro conjI)
qed


theorem get_summary_record_probes_witness:
  "get_summary_record 1700000040 1700007240 beacon_world =
     (Inr ''DEADBEEFDEADBEEF'',
      beacon_world\<lparr>reqs := [''https://beacon.nist.gov/rest/record/1700000040'',
                            ''https://beacon.nist.gov/rest/record/1700003640''],
                   out := [ProgressBar 0 2, ProgressBar 1 2]\<rparr>)"
proof -
  have r: "py_range 1700000040 1700007240 frequency = [1700000040, 1700003640]"
    using py_range_two_hours [of 1700000040] by simp
  have w: "reqs beacon_world = []" "out beacon_world = []"
    "net beacon_world = (\<lambda>k url. Body ''<record><outputValue>DEADBEEF</outputValue></record>'')"
    by (simp_all add: beacon_world_def)
  have h: "answers beacon_world (length (reqs beacon_world))
             (py_range 1700000040 1700007240 frequency) [''DEADBEEF'', ''DEADBEEF'']"
    by (simp add: r w beacon_body_value)
  from get_summary_record_probes [of 1700000040 1700007240 beacon_world
      "[''DEADBEEF'', ''DEADBEEF'']"] h
  have "get_summary_record 1700000040 1700007240 beacon_world =
          (Inr (concat [''DEADBEEF'', ''DEADBEEF'']),
           beacon_world\<lparr>reqs := reqs beacon_world
               @ map timestamp_url (py_range 1700000040 1700007240 frequency),
             out := out beacon_world
               @ map (\<lambda>i. ProgressBar i (length (py_range 1700000040 1700007240 frequency)))
                      [0..<length (py_range 1700000040 1700007240 frequency)]\<rparr>)"
    by blast
  then show ?thesis
    by (simp add: r w str_int_samples main_url_def upt_rec [of 0] upt_rec [of 1])
qed

text \<open>
  C3. The claim is that \<^verbatim>\<open>get_xml\<close> answers every network failure by reporting
  it, waiting 2 seconds and retrying, up to 3 attempts, and then reports that the host is
  probably down. The code does not: the name \<^verbatim>\<open>str_error\<close> is unbound once the
  \<^verbatim>\<open>except\<close> clause is left, so \<^verbatim>\<open>if str_error:\<close> raises
  \<^verbatim>\<open>UnboundLocalError\<close> after the first failed attempt. In every world and for
  every URL the function issues exactly one request, never sleeps and never prints the
  "probably is down" line; when the first request for the last record fails with an
  \<^verbatim>\<open>IOError\<close>, it prints the "unreachable" line once and leaves with
  \<^verbatim>\<open>UnboundLocalError\<close>, which ends the process with status 1.
\<close>

theorem get_xml_first_failure:
  "slept (snd (get_xml url w)) = slept w
   \<and> reqs (snd (get_xml url w)) = reqs w @ [url]
   \<and> Print host_unreachable_at_all \<notin> set (drop (length (out w)) (out (snd (get_xml url w))))
   \<and> get_xml (main_url @ ''last/'') offline_world =
       (Inl UnboundLocalError,
        offline_world\<lparr>reqs := [main_url @ ''last/''], out := [Print host_unreachable]\<rparr>)
   \<and> exit_status (fst (get_xml (main_url @ ''last/'') offline_world)) = 1"
proof -
  have w: "net offline_world = (\<lambda>k url. NetRaises NetIOError)" "reqs offline_world = []"
    "out offline_world = []" "slept offline_world = 0"
    by (simp_all add: offline_world_def)
  have "get_xml (main_url @ ''last/'') offline_world =
     (Inl UnboundLocalError,
      offline_world\<lparr>reqs := [main_url @ ''last/''], out := [Print host_unreachable]\<rparr>)"
    by (simp add: get_xml_cases w)
  then show ?thesis using get_xml_never_retries [of url w] by simp
qed

text \<open>
  C4. On \<^verbatim>\<open><outputValue>DEADBEEF</outputValue>\<close> the extractor returns
  \<^verbatim>\<open>DEADBEEF\<close>, as claimed. On a text without the element the claim is that it
  prints the "output value wasn't found" line and exits; the code does not:
  \<^verbatim>\<open>re.search\<close> returns \<^verbatim>\<open>None\<close>, \<^verbatim>\<open>.group(1)\<close> raises
  \<^verbatim>\<open>AttributeError\<close>, which neither handler catches, so nothing is printed and the
  exception leaves the function (the process ends with status 1).
\<close>

theorem parse_xml_absent_element:
  "parse_xml (Some ''<outputValue>DEADBEEF</outputValue>'') w = (Inr ''DEADBEEF'', w)
   \<and> parse_xml (Some ''<record><version>0.1.0</version></record>'') w = (Inl AttributeError, w)
   \<and> out (snd (parse_xml (Some ''<record><version>0.1.0</version></record>'') w)) = out w
   \<and> exit_status (fst (parse_xml (Some ''<record><version>0.1.0</version></record>'') w)) = 1"
proof -
  have a: "re_search ''<outputValue>DEADBEEF</outputValue>'' = Some ''DEADBEEF''"
    by (simp add: open_tag_def close_tag_def)
  have b: "re_search ''<record><version>0.1.0</version></record>'' = None"
    by (simp add: open_tag_def close_tag_def)
  show ?thesis by (simp add: parse_xml_found [OF a] parse_xml_absent [OF b])
qed

text \<open>
  C5. \<^verbatim>\<open>validate_timestamps\<close> prints the "--from should predate --to" line and
  exits with status 1 exactly when \<open>from_ts > to_ts\<close>; for \<open>from_ts = to_ts\<close> and
  for \<open>from_ts < to_ts\<close> that failure does not happen.
\<close>

theorem validate_timestamps_ordering:
  "(out (snd (validate_timestamps f t w)) = out w @ [Print from_less_than_to]) = (t < f)
   \<and> (validate_timestamps f t w
        = (Inl (SystemExit 1), w\<lparr>out := out w @ [Print from_less_than_to]\<rparr>)) = (t < f)"
proof -
  have neq: "w\<lparr>out := out w @ [Print time_less_than_min]\<rparr>
      \<noteq> w\<lparr>out := out w @ [Print from_less_than_to]\<rparr>"
  proof
    assume "w\<lparr>out := out w @ [Print time_less_than_min]\<rparr>
      = w\<lparr>out := out w @ [Print from_less_than_to]\<rparr>"
    then have "out (w\<lparr>out := out w @ [Print time_less_than_min]\<rparr>)
      = out (w\<lparr>out := out w @ [Print from_less_than_to]\<rparr>)" by (rule arg_cong)
    then show False using messages_differ by simp
  qed
  show ?thesis
    using messages_differ neq by (simp add: validate_timestamps_cases)
qed

theorem validate_timestamps_ordering_witness:
  "(out (snd (validate_timestamps 1700003600 1700000000 offline_world))
      = out offline_world @ [Print from_less_than_to])
   \<and> (out (snd (validate_timestamps 1700000000 1700000000 offline_world))
      \<noteq> out offline_world @ [Print from_less_than_to])
   \<and> (out (snd (validate_timestamps 1700000000 1700003600 offline_world))
      \<noteq> out offline_world @ [Print from_less_than_to])"
  using validate_timestamps_ordering [of 1700003600 1700000000 offline_world]
    validate_timestamps_ordering [of 1700000000 1700000000 offline_world]
    validate_timestamps_ordering [of 1700000000 1700003600 offline_world]
  by simp

text \<open>
  C6. The claim is that a timestamp below 1378395540 triggers the "predates beacon
  start" failure whatever the other bound is. The ordering test comes first in the code:
  with \<open>from_ts = 1700000000\<close> and \<open>to_ts = 1000000000\<close> the second bound is below
  the beacon start, and the function prints the "--from should predate --to" line
  instead. Amended: when \<open>from_ts \<le> to_ts\<close> and either timestamp is below 1378395540,
  the function prints the "predates beacon start" line and exits with status 1.
\<close>

theorem validate_timestamps_pre_epoch:
  "f \<le> t \<Longrightarrow> f < min_timestamp \<or> t < min_timestamp \<Longrightarrow>
   validate_timestamps f t w
     = (Inl (SystemExit 1), w\<lparr>out := out w @ [Print time_less_than_min]\<rparr>)"
  by (simp add: validate_timestamps_cases)

theorem validate_timestamps_pre_epoch_witness:
  "validate_timestamps 100 200 offline_world
     = (Inl (SystemExit 1), offline_world\<lparr>out := out offline_world @ [Print time_less_than_min]\<rparr>)"
  by (rule validate_timestamps_pre_epoch) (simp_all add: min_timestamp_def)

theorem validate_timestamps_pre_epoch_counterexample:
  "(1000000000::int) < min_timestamp
   \<and> validate_timestamps 1700000000 1000000000 offline_world
       = (Inl (SystemExit 1), offline_world\<lparr>out := out offline_world @ [Print from_less_than_to]\<rparr>)
   \<and> out (snd (validate_timestamps 1700000000 1000000000 offline_world))
       \<noteq> out offline_world @ [Print time_less_than_min]"
  using messages_differ by (simp add: validate_timestamps_cases min_timestamp_def)

end
